theory Spec2Isabelle
  imports Main "HOL-Library.AList"
begin

section \<open>The local encrypted item store\<close>

text \<open>
  A shallow embedding of the class \<open>Store\<close> of \<open>lib/local_store.ts\<close>. Every method
  returns a Q promise; a settled promise is a value of \<open>error + 'a\<close> (\<open>Inl\<close> is a
  rejection), and a \<open>.then\<close> chain is \<open>Q_then\<close>. The store's mutable parts (the two
  object stores of the database, the keys held by the Key Agent, the two event
  streams) are a record that the mutating methods return updated.
\<close>

subsection \<open>Errors\<close>

text \<open>
  The store itself only throws \<open>new Error(message)\<close>; reading a property of
  \<open>undefined\<close> throws a \<open>TypeError\<close>, \<open>JSON.parse\<close> a \<open>SyntaxError\<close>. The other two
  constructors stand for rejections that come out of the collaborators (the Key
  Agent with its key derivation, and the database).
\<close>

datatype error =
    Error string
  | TypeError string
  | SyntaxError
  | CryptoError string
  | StorageFailure string

definition NoKeys :: error where
  "NoKeys = Error ''No encryption keys have been saved''"

definition Locked :: error where
  "Locked = Error ''Unable to fetch overview key. Vault may be locked?''"

definition NoSuchItem :: "string \<Rightarrow> error" where
  "NoSuchItem uuid = Error (''No such item '' @ uuid)"

definition Q_then :: "error + 'a \<Rightarrow> ('a \<Rightarrow> error + 'b) \<Rightarrow> error + 'b" where
  "Q_then p f = (case p of Inl e \<Rightarrow> Inl e | Inr x \<Rightarrow> f x)"

subsection \<open>Data model\<close>

text \<open>
  \<open>interface ItemOverview\<close>: the fields carry the prefix \<open>ov_\<close> because \<open>Item\<close> has
  fields of the same names. Timestamps are the millisecond counts that
  \<open>Date.getTime()\<close> yields and \<open>new Date(n)\<close> takes, so a \<open>Date\<close> is modelled by its
  count. \<open>'o\<close> is \<open>item_store.ItemOpenContents\<close>.
\<close>

record 'o ItemOverview =
  ov_title :: string
  ov_updatedAt :: int
  ov_createdAt :: int
  ov_trashed :: bool
  ov_typeName :: string
  ov_openContents :: 'o
  ov_locations :: "string list"
  ov_account :: string

text \<open>
  \<open>item_store.Item\<close>: the fields that \<open>local_store.ts\<close> reads and writes, and the
  content payload \<open>'c\<close> (\<open>item_store.ItemContent\<close>), which is \<open>None\<close> until it is
  loaded.
\<close>

record ('o, 'c) Item =
  uuid :: string
  title :: string
  updatedAt :: int
  createdAt :: int
  trashed :: bool
  typeName :: string
  openContents :: 'o
  locations :: "string list"
  account :: string
  content :: "'c option"

text \<open>
  \<open>interface EncryptedContent\<close>, and the values that the item store holds: the
  encrypted index (a string) and encrypted content objects. \<open>'txt\<close> is the type of
  JSON text and of ciphertext, both \<open>string\<close> in the source; the store never looks
  inside such a string, it only tests one for truthiness. \<open>ObjectStore.get\<close>
  is an unchecked cast in the source, so a read yields whatever value is stored;
  \<open>None\<close> is \<open>undefined\<close>.
\<close>

record 'txt EncryptedContent =
  data :: 'txt

datatype 'txt JsValue =
    Str 'txt
  | Obj "'txt EncryptedContent"

record ListItemsOptions =
  includeTombstones :: "bool option"

text \<open>
  The state: the object stores \<open>key-store\<close> and \<open>item-store\<close> of the database (entries
  in insertion order), the keys held by the Key Agent (id and key material), and what
  has been published on the two event streams (\<open>onUnlock\<close> carries no payload, so
  its publications are counted).
\<close>

record ('o, 'c, 'k, 'txt) Store =
  keyStore :: "(string \<times> 'k) list"
  itemStore :: "(string \<times> 'txt JsValue) list"
  keyAgent :: "(string \<times> string) list"
  onItemUpdated :: "('o, 'c) Item list"
  onUnlock :: nat

text \<open>
  The collaborators whose code is not part of the store, as parameters:
  \<^item> \<open>key_agent.decryptKeys(keys, pwd)\<close>, yielding the decrypted keys as pairs of
    \<open>id\<close> and \<open>key\<close>;
  \<^item> \<open>KeyAgent.encrypt\<close> and \<open>KeyAgent.decrypt\<close>, which depend on the keys the agent
    holds, the key id and the data handed over;
  \<^item> \<open>JSON.stringify\<close> and \<open>JSON.parse\<close> at the two types they are used at
    (\<open>JSON.parse\<close> of the index may yield a falsy value, \<open>None\<close>);
  \<^item> the truthiness of a string (\<open>text_empty\<close>: it is the empty string);
  \<^item> \<open>Item.updateTimestamps\<close> (it reads the clock) and
    \<open>Item.updateOverviewFromContent\<close>;
  \<^item> the failure of a write to the item store (\<open>StorageFailure\<close>), by key.
\<close>

record ('o, 'c, 'k, 'txt) Collaborators =
  decryptKeys :: "'k list \<Rightarrow> string \<Rightarrow> error + (string \<times> string) list"
  keyAgent_encrypt :: "(string \<times> string) list \<Rightarrow> string \<Rightarrow> 'txt \<Rightarrow> error + 'txt"
  keyAgent_decrypt ::
    "(string \<times> string) list \<Rightarrow> string \<Rightarrow> 'txt JsValue option \<Rightarrow> error + 'txt"
  JSON_stringify_index :: "(string \<times> 'o ItemOverview) list \<Rightarrow> 'txt"
  JSON_parse_index :: "'txt \<Rightarrow> error + (string \<times> 'o ItemOverview) list option"
  JSON_stringify_content :: "'c \<Rightarrow> 'txt"
  JSON_parse_content :: "'txt \<Rightarrow> error + 'c"
  text_empty :: "'txt \<Rightarrow> bool"
  updateTimestamps :: "('o, 'c) Item \<Rightarrow> ('o, 'c) Item"
  updateOverviewFromContent :: "('o, 'c) Item \<Rightarrow> 'c \<Rightarrow> ('o, 'c) Item"
  itemStore_set_error :: "string \<Rightarrow> error option"

subsection \<open>The database and the Key Agent\<close>

text \<open>
  A JavaScript object, and an object store, is an association list that is read
  through \<open>map_of\<close> (one value per key). \<open>Object.keys\<close> lists the keys in insertion
  order; that an engine lists integer-like keys first is not modelled, and no
  property below depends on the order of the keys.
\<close>

definition Object_keys :: "(string \<times> 'v) list \<Rightarrow> string list" where
  "Object_keys m = remdups (map fst m)"

text \<open>
  Modelled from the spec: \<open>ObjectStore.get\<close> of the Key/Value Database
  (\<open>lib/base/key_value_store\<close>), \<open>get<T>(key) -> T|absent\<close>. It resolves to the value
  stored under the key, and to \<open>undefined\<close> (\<open>None\<close>) when there is none.
\<close>

definition ObjectStore_get :: "(string \<times> 'v) list \<Rightarrow> string \<Rightarrow> 'v option" where
  "ObjectStore_get s k = map_of s k"

text \<open>
  Modelled from the spec: \<open>ObjectStore.list\<close> (\<open>lib/base/key_value_store\<close>),
  \<open>list(prefix) -> [keys]\<close>: the keys of the store that start with the prefix.
\<close>

definition ObjectStore_list :: "(string \<times> 'v) list \<Rightarrow> string \<Rightarrow> string list" where
  "ObjectStore_list s p = filter (\<lambda>k. take (length p) k = p) (Object_keys s)"

text \<open>
  Modelled from the spec: \<open>ObjectStore.set\<close> (\<open>lib/base/key_value_store\<close>),
  \<open>set(key, value) -> done\<close>, on the item store. A write overwrites the entry of its
  key or adds one; the database can reject it (\<open>StorageFailure\<close>, propagated
  unchanged), and then nothing is written.
\<close>

definition itemStore_set ::
  "('o, 'c, 'k, 'txt) Collaborators \<Rightarrow> ('o, 'c, 'k, 'txt) Store \<Rightarrow> string \<Rightarrow> 'txt JsValue
    \<Rightarrow> (error + unit) \<times> ('o, 'c, 'k, 'txt) Store" where
  "itemStore_set env st k v =
     (case itemStore_set_error env k of
        Some e \<Rightarrow> (Inl e, st)
      | None \<Rightarrow> (Inr (), st\<lparr>itemStore := AList.update k v (itemStore st)\<rparr>))"

text \<open>
  Modelled from the spec: \<open>KeyAgent.listKeys\<close> (\<open>lib/key_agent\<close>), \<open>listKeys() -> ids\<close>:
  the ids of the keys the agent holds.
\<close>

definition KeyAgent_listKeys :: "(string \<times> string) list \<Rightarrow> string list" where
  "KeyAgent_listKeys keys = map fst keys"

text \<open>
  Modelled from the spec: \<open>KeyAgent.addKey\<close> (\<open>lib/key_agent\<close>),
  \<open>addKey(id, material) -> done\<close>. The agent holds its keys by key id, so a key added
  under an id that is held replaces it.
\<close>

definition KeyAgent_addKey ::
  "string \<Rightarrow> string \<Rightarrow> (string \<times> string) list \<Rightarrow> (string \<times> string) list" where
  "KeyAgent_addKey i key keys = AList.update i key keys"

text \<open>
  Modelled from the spec: \<open>Item.isTombstone\<close> (\<open>lib/item_store\<close>). The data model has
  \<open>trashed\<close> as the boolean tombstone flag, and a tombstone is an item marked
  \<open>trashed\<close>.
\<close>

definition isTombstone :: "('o, 'c) Item \<Rightarrow> bool" where
  "isTombstone item = trashed item"

text \<open>
  Modelled from the spec: \<open>collectionutil.listToMap\<close>, a map keyed by \<open>keyFunc\<close> with
  one entry per key; a later element replaces an earlier one with the same key.
\<close>

definition listToMap :: "'a list \<Rightarrow> ('a \<Rightarrow> string) \<Rightarrow> (string \<times> 'a) list" where
  "listToMap list keyFunc = fold (\<lambda>item m. AList.update (keyFunc item) item m) list []"

subsection \<open>Keys and unlocking\<close>

definition KEY_ID_PREFIX :: string where
  "KEY_ID_PREFIX = ''key/''"

definition listKeys :: "('o, 'c, 'k, 'txt) Store \<Rightarrow> 'k list" where
  "listKeys st =
     List.map_filter (\<lambda>i. ObjectStore_get (keyStore st) i)
       (ObjectStore_list (keyStore st) KEY_ID_PREFIX)"

definition unlock ::
  "('o, 'c, 'k, 'txt) Collaborators \<Rightarrow> ('o, 'c, 'k, 'txt) Store \<Rightarrow> string
    \<Rightarrow> (error + unit) \<times> ('o, 'c, 'k, 'txt) Store" where
  "unlock env st pwd =
     (let keys = listKeys st in
      if length keys = 0 then (Inl NoKeys, st)
      else
        (case decryptKeys env keys pwd of
           Inl e \<Rightarrow> (Inl e, st)
         | Inr decrypted \<Rightarrow>
             (Inr (),
              st\<lparr>keyAgent := fold (\<lambda>(i, key) agent. KeyAgent_addKey i key agent)
                                decrypted (keyAgent st),
                 onUnlock := Suc (onUnlock st)\<rparr>)))"

definition overviewKey :: "('o, 'c, 'k, 'txt) Store \<Rightarrow> error + string" where
  "overviewKey st =
     (let keyIds = KeyAgent_listKeys (keyAgent st) in
      if length keyIds < 1 then Inl Locked else Inr (keyIds ! 0))"

definition keyForItem :: "('o, 'c, 'k, 'txt) Store \<Rightarrow> ('o, 'c) Item \<Rightarrow> error + string" where
  "keyForItem st item = overviewKey st"

subsection \<open>The overview index\<close>

definition itemFromOverview :: "string \<Rightarrow> 'o ItemOverview \<Rightarrow> ('o, 'c) Item" where
  "itemFromOverview u overview =
     \<lparr>uuid = u,
      title = ov_title overview,
      updatedAt = ov_updatedAt overview,
      createdAt = ov_createdAt overview,
      trashed = ov_trashed overview,
      typeName = ov_typeName overview,
      openContents = ov_openContents overview,
      locations = ov_locations overview,
      account = ov_account overview,
      content = None\<rparr>"

definition overviewFromItem :: "('o, 'c) Item \<Rightarrow> 'o ItemOverview" where
  "overviewFromItem item =
     \<lparr>ov_title = title item,
      ov_updatedAt = updatedAt item,
      ov_createdAt = createdAt item,
      ov_trashed = trashed item,
      ov_typeName = typeName item,
      ov_openContents = openContents item,
      ov_locations = locations item,
      ov_account = account item\<rparr>"

text \<open>The truthiness test \<open>if (encryptedItemIndex)\<close>.\<close>

definition truthy :: "('o, 'c, 'k, 'txt) Collaborators \<Rightarrow> 'txt JsValue option \<Rightarrow> bool" where
  "truthy env v =
     (case v of None \<Rightarrow> False | Some (Str s) \<Rightarrow> \<not> text_empty env s | Some (Obj x) \<Rightarrow> True)"

text \<open>
  The first three steps of \<open>listItems\<close>: the overview key, the entry \<open>index\<close>, its
  decryption (\<open>null\<close>, here \<open>None\<close>, when the entry is falsy), and
  \<open>JSON.parse(decryptedItemIndex) || {}\<close>.
\<close>

definition readIndex ::
  "('o, 'c, 'k, 'txt) Collaborators \<Rightarrow> ('o, 'c, 'k, 'txt) Store
    \<Rightarrow> error + (string \<times> 'o ItemOverview) list" where
  "readIndex env st =
     Q_then (overviewKey st) (\<lambda>key.
       let encryptedItemIndex = ObjectStore_get (itemStore st) ''index'' in
       Q_then
         (if truthy env encryptedItemIndex
          then Q_then (keyAgent_decrypt env (keyAgent st) key encryptedItemIndex)
                 (\<lambda>t. Inr (Some t))
          else Inr None)
         (\<lambda>decryptedItemIndex.
            case decryptedItemIndex of
              None \<Rightarrow> Inr []
            | Some t \<Rightarrow>
                Q_then (JSON_parse_index env t)
                  (\<lambda>parsed. Inr (case parsed of None \<Rightarrow> [] | Some m \<Rightarrow> m))))"

text \<open>
  The body of the loop over \<open>Object.keys(overviewMap)\<close>: the items that one key
  contributes to the result.
\<close>

definition listedItem ::
  "ListItemsOptions \<Rightarrow> (string \<times> 'o ItemOverview) list \<Rightarrow> string \<Rightarrow> ('o, 'c) Item list" where
  "listedItem opts overviewMap key =
     (case map_of overviewMap key of
        None \<Rightarrow> []
      | Some overview \<Rightarrow>
          (let item = itemFromOverview key overview in
           if \<not> isTombstone item \<or> includeTombstones opts = Some True then [item] else []))"

definition itemsOfIndex ::
  "ListItemsOptions \<Rightarrow> (string \<times> 'o ItemOverview) list \<Rightarrow> ('o, 'c) Item list" where
  "itemsOfIndex opts overviewMap =
     concat (map (listedItem opts overviewMap) (Object_keys overviewMap))"

definition listItems ::
  "('o, 'c, 'k, 'txt) Collaborators \<Rightarrow> ('o, 'c, 'k, 'txt) Store \<Rightarrow> ListItemsOptions
    \<Rightarrow> error + ('o, 'c) Item list" where
  "listItems env st opts =
     Q_then (readIndex env st) (\<lambda>overviewMap. Inr (itemsOfIndex opts overviewMap))"

definition mergedOverviewMap ::
  "('o, 'c) Item list \<Rightarrow> ('o, 'c) Item list \<Rightarrow> (string \<times> 'o ItemOverview) list" where
  "mergedOverviewMap items updatedItems =
     (let itemMap = listToMap items uuid;
          itemMap' = fold (\<lambda>item m. AList.update (uuid item) item m) updatedItems itemMap
      in fold (\<lambda>(u, item) overviewMap. AList.update u (overviewFromItem item) overviewMap)
           itemMap' [])"

definition updateIndex ::
  "('o, 'c, 'k, 'txt) Collaborators \<Rightarrow> ('o, 'c, 'k, 'txt) Store \<Rightarrow> ('o, 'c) Item list
    \<Rightarrow> (error + unit) \<times> ('o, 'c, 'k, 'txt) Store" where
  "updateIndex env st updatedItems =
     (case
        Q_then (listItems env st \<lparr>includeTombstones = Some True\<rparr>) (\<lambda>items.
          let overviewMap = mergedOverviewMap items updatedItems in
          Q_then (overviewKey st) (\<lambda>key.
            keyAgent_encrypt env (keyAgent st) key (JSON_stringify_index env overviewMap)))
      of
        Inl e \<Rightarrow> (Inl e, st)
      | Inr encrypted \<Rightarrow> itemStore_set env st ''index'' (Str encrypted))"

definition loadItem ::
  "('o, 'c, 'k, 'txt) Collaborators \<Rightarrow> ('o, 'c, 'k, 'txt) Store \<Rightarrow> string
    \<Rightarrow> error + ('o, 'c) Item" where
  "loadItem env st u =
     Q_then (listItems env st \<lparr>includeTombstones = None\<rparr>) (\<lambda>items.
       let matches = filter (\<lambda>item. uuid item = u) items in
       if length matches > 0 then Inr (matches ! 0) else Inl (NoSuchItem u))"

subsection \<open>Item content\<close>

definition getContent ::
  "('o, 'c, 'k, 'txt) Collaborators \<Rightarrow> ('o, 'c, 'k, 'txt) Store \<Rightarrow> ('o, 'c) Item
    \<Rightarrow> error + 'c" where
  "getContent env st item =
     Q_then (keyForItem st item) (\<lambda>key.
       let encryptedContent = ObjectStore_get (itemStore st) (''content/'' @ uuid item) in
       Q_then
         (case encryptedContent of
            None \<Rightarrow> Inl (TypeError ''Cannot read property data of undefined'')
          | Some (Obj x) \<Rightarrow> Inr (Some (Str (data x)))
          | Some (Str s) \<Rightarrow> Inr None)
         (\<lambda>encryptedData.
            Q_then (keyAgent_decrypt env (keyAgent st) key encryptedData)
              (\<lambda>decrypted. JSON_parse_content env decrypted)))"

text \<open>
  Modelled from the spec: \<open>Item.getContent\<close> (\<open>lib/item_store\<close>). The content payload
  of an item is fetched lazily: it is the content the item holds, and is read from
  the store when the item holds none.
\<close>

definition Item_getContent ::
  "('o, 'c, 'k, 'txt) Collaborators \<Rightarrow> ('o, 'c, 'k, 'txt) Store \<Rightarrow> ('o, 'c) Item
    \<Rightarrow> error + 'c" where
  "Item_getContent env st item =
     (case content item of Some c \<Rightarrow> Inr c | None \<Rightarrow> getContent env st item)"

text \<open>
  Modelled from the spec: \<open>BatchedUpdateQueue.push\<close> (\<open>lib/base/collectionutil\<close>) on a
  queue at rest. With no flush running, the push starts one with the pending
  list, which is the pushed item alone; the promise it returns settles as the flush
  does. The flush function is \<open>updateIndex\<close> (the constructor of \<open>Store\<close>).
\<close>

definition indexUpdateQueue_push ::
  "('o, 'c, 'k, 'txt) Collaborators \<Rightarrow> ('o, 'c, 'k, 'txt) Store \<Rightarrow> ('o, 'c) Item
    \<Rightarrow> (error + unit) \<times> ('o, 'c, 'k, 'txt) Store" where
  "indexUpdateQueue_push env st item = updateIndex env st [item]"

text \<open>
  \<open>Q.all\<close> of two promises is fulfilled when both are and rejected when one is. Which
  rejection it reports when both reject depends on which comes first; the model
  reports the first promise's.
\<close>

definition Q_all2 :: "error + unit \<Rightarrow> error + unit \<Rightarrow> error + unit" where
  "Q_all2 p q = (case p of Inl e \<Rightarrow> Inl e | Inr u \<Rightarrow> q)"

text \<open>
  \<open>saveItem\<close> mutates the item it is given (timestamps, overview fields), so the
  model returns the item as the call leaves it, next to the settled promise and the
  state. \<open>prepareSave\<close> is the chain up to the encryption of the content
  (it only reads the state); the callback that follows pushes the item and
  starts the content write in one go. The index flush and the content write are
  both started before either completes; they write different entries of the item
  store and the flush reads only \<open>index\<close>. The model of one call takes the flush
  first; the runs of the next subsection take the two in any order.
\<close>

definition prepareSave ::
  "('o, 'c, 'k, 'txt) Collaborators \<Rightarrow> ('o, 'c, 'k, 'txt) Store \<Rightarrow> ('o, 'c) Item
    \<Rightarrow> (error + 'txt) \<times> ('o, 'c) Item" where
  "prepareSave env st item0 =
     (let item = updateTimestamps env item0 in
      case keyForItem st item of
        Inl e \<Rightarrow> (Inl e, item)
      | Inr key \<Rightarrow>
          (case Item_getContent env st item of
             Inl e \<Rightarrow> (Inl e, item)
           | Inr itemContent \<Rightarrow>
               (let item' = updateOverviewFromContent env item itemContent in
                (keyAgent_encrypt env (keyAgent st) key
                   (JSON_stringify_content env itemContent), item'))))"

definition saveItem ::
  "('o, 'c, 'k, 'txt) Collaborators \<Rightarrow> ('o, 'c, 'k, 'txt) Store \<Rightarrow> ('o, 'c) Item
    \<Rightarrow> (error + unit) \<times> ('o, 'c) Item \<times> ('o, 'c, 'k, 'txt) Store" where
  "saveItem env st item0 =
     (case prepareSave env st item0 of
        (Inl e, item) \<Rightarrow> (Inl e, item, st)
      | (Inr contentData, item) \<Rightarrow>
          (let encryptedContent = \<lparr>data = contentData\<rparr>;
               (overviewSaved, st1) = indexUpdateQueue_push env st item;
               (contentSaved, st2) =
                 itemStore_set env st1 (''content/'' @ uuid item) (Obj encryptedContent)
           in case Q_all2 overviewSaved contentSaved of
                Inl e \<Rightarrow> (Inl e, item, st2)
              | Inr u \<Rightarrow>
                  (Inr (), item, st2\<lparr>onItemUpdated := onItemUpdated st2 @ [item]\<rparr>)))"

subsection \<open>Concurrent saves and the Batched Update Queue\<close>

text \<open>
  The program runs on one thread: between two suspension points a callback runs to
  its end. A system state is the store, the queue (pending items, the batch of the
  running flush), the content writes that have been started and not completed, and
  the history of pushes and of completed flush calls with their outcomes.
\<close>

record ('o, 'c, 'k, 'txt) System =
  store :: "('o, 'c, 'k, 'txt) Store"
  pendingUpdates :: "('o, 'c) Item list"
  currentFlush :: "('o, 'c) Item list option"
  pendingWrites :: "(string \<times> 'txt JsValue) list"
  pushed :: "('o, 'c) Item list"
  flushed :: "(('o, 'c) Item list \<times> (error + unit)) list"

text \<open>
  An action is one of: a \<open>saveItem\<close> call reaching its two writes, the running flush
  completing, the \<open>n\<close>-th outstanding content write completing.
\<close>

datatype ('o, 'c) action = Save "('o, 'c) Item" | FlushDone | WriteDone nat

definition atRest :: "('o, 'c, 'k, 'txt) Store \<Rightarrow> ('o, 'c, 'k, 'txt) System" where
  "atRest st =
     \<lparr>store = st, pendingUpdates = [], currentFlush = None, pendingWrites = [],
      pushed = [], flushed = []\<rparr>"

text \<open>
  Modelled from the spec: the scheduling of \<open>BatchedUpdateQueue\<close>
  (\<open>lib/base/collectionutil\<close>). If no flush is currently running, one is started with the
  current pending list, which is cleared.
\<close>

definition startFlush :: "('o, 'c, 'k, 'txt) System \<Rightarrow> ('o, 'c, 'k, 'txt) System" where
  "startFlush sys =
     (case currentFlush sys of
        Some batch \<Rightarrow> sys
      | None \<Rightarrow>
          if pendingUpdates sys = [] then sys
          else sys\<lparr>currentFlush := Some (pendingUpdates sys), pendingUpdates := []\<rparr>)"

text \<open>
  Modelled from the spec: \<open>BatchedUpdateQueue.push\<close> (\<open>lib/base/collectionutil\<close>). The
  item joins the pending list; if a flush is running it waits there for the next
  batch, otherwise a flush starts.
\<close>

definition BatchedUpdateQueue_push ::
  "('o, 'c, 'k, 'txt) System \<Rightarrow> ('o, 'c) Item \<Rightarrow> ('o, 'c, 'k, 'txt) System" where
  "BatchedUpdateQueue_push sys item =
     startFlush (sys\<lparr>pendingUpdates := pendingUpdates sys @ [item],
                     pushed := pushed sys @ [item]\<rparr>)"

text \<open>
  One action. A save prepares the item on the store as it is (\<open>prepareSave\<close> only
  reads) and, if that succeeds, pushes the item and starts the content write. The
  flush is \<open>updateIndex\<close> on the batch; while it runs nothing else writes the entry
  \<open>index\<close>, so its read-modify-write is taken at its completion. Modelled from the
  spec: when the flush completes, its outcome settles the promises of its batch
  (a rejected flush is not retried) and a follow-up flush starts if items are
  pending.
\<close>

fun step ::
  "('o, 'c, 'k, 'txt) Collaborators \<Rightarrow> ('o, 'c, 'k, 'txt) System \<Rightarrow> ('o, 'c) action
    \<Rightarrow> ('o, 'c, 'k, 'txt) System" where
  "step env sys (Save item0) =
     (case prepareSave env (store sys) item0 of
        (Inl e, item) \<Rightarrow> sys
      | (Inr contentData, item) \<Rightarrow>
          (BatchedUpdateQueue_push sys item)
            \<lparr>pendingWrites :=
               pendingWrites sys @ [(''content/'' @ uuid item, Obj \<lparr>data = contentData\<rparr>)]\<rparr>)"
| "step env sys FlushDone =
     (case currentFlush sys of
        None \<Rightarrow> sys
      | Some batch \<Rightarrow>
          (let (r, st') = updateIndex env (store sys) batch
           in startFlush (sys\<lparr>store := st', currentFlush := None,
                               flushed := flushed sys @ [(batch, r)]\<rparr>)))"
| "step env sys (WriteDone n) =
     (if n < length (pendingWrites sys)
      then (let (k, v) = pendingWrites sys ! n
            in sys\<lparr>store := snd (itemStore_set env (store sys) k v),
                   pendingWrites := take n (pendingWrites sys) @ drop (Suc n) (pendingWrites sys)\<rparr>)
      else sys)"

definition run ::
  "('o, 'c, 'k, 'txt) Collaborators \<Rightarrow> ('o, 'c, 'k, 'txt) System \<Rightarrow> ('o, 'c) action list
    \<Rightarrow> ('o, 'c, 'k, 'txt) System" where
  "run env sys actions = fold (\<lambda>a s. step env s a) actions sys"




subsection \<open>The overlay of a batch, in the words of the specification\<close>

text \<open>
  The map that \<open>updateIndex\<close> is specified to build: a batch item with the same uuid
  as an existing item replaces it, and within the batch a later item replaces an
  earlier one with the same uuid. \<open>mergedOverviewMap\<close> above is what the code
  builds; the two are compared below.
\<close>

definition spec_lastWriter :: "('o, 'c) Item list \<Rightarrow> string \<Rightarrow> ('o, 'c) Item option" where
  "spec_lastWriter updatedItems u =
     (case filter (\<lambda>item. uuid item = u) updatedItems of
        [] \<Rightarrow> None
      | x # xs \<Rightarrow> Some (last (x # xs)))"


subsection \<open>Test doubles\<close>

text \<open>
  Concrete collaborators on which the theorems below are instantiated. JSON text
  and ciphertext are terms: a document is its own serialisation, a ciphertext names
  the key id it was made with, and decryption under that key id is transparent. The
  key derivation accepts one password. Writes to the keys listed in the argument
  of \<open>test_env\<close> are rejected by the database.
\<close>

datatype test_text =
    IndexJson "(string \<times> unit ItemOverview) list"
  | ContentJson string
  | Ciphertext string test_text
  | EmptyText

definition test_env :: "string list \<Rightarrow> (unit, string, string, test_text) Collaborators" where
  "test_env failing =
     \<lparr>decryptKeys = (\<lambda>keys pwd.
        if pwd = ''hunter2'' then Inr (map (\<lambda>k. (k, ''material'')) keys)
        else Inl (CryptoError ''InvalidPassword'')),
      keyAgent_encrypt = (\<lambda>agent key t.
        case map_of agent key of
          None \<Rightarrow> Inl (CryptoError ''unknown key'')
        | Some material \<Rightarrow> Inr (Ciphertext key t)),
      keyAgent_decrypt = (\<lambda>agent key v.
        case v of
          Some (Str (Ciphertext k t)) \<Rightarrow>
            if k = key \<and> map_of agent key \<noteq> None then Inr t
            else Inl (CryptoError ''wrong key'')
        | _ \<Rightarrow> Inl (CryptoError ''not a ciphertext'')),
      JSON_stringify_index = IndexJson,
      JSON_parse_index = (\<lambda>t. case t of IndexJson m \<Rightarrow> Inr (Some m) | _ \<Rightarrow> Inl SyntaxError),
      JSON_stringify_content = ContentJson,
      JSON_parse_content = (\<lambda>t. case t of ContentJson c \<Rightarrow> Inr c | _ \<Rightarrow> Inl SyntaxError),
      text_empty = (\<lambda>t. t = EmptyText),
      updateTimestamps = (\<lambda>item. item\<lparr>updatedAt := 1000\<rparr>),
      updateOverviewFromContent = (\<lambda>item c. item\<lparr>account := c\<rparr>),
      itemStore_set_error = (\<lambda>k.
        if k \<in> set failing then Some (StorageFailure k) else None)\<rparr>"

definition test_item :: "string \<Rightarrow> string \<Rightarrow> bool \<Rightarrow> (unit, string) Item" where
  "test_item u t tr =
     \<lparr>uuid = u, title = t, updatedAt = 0, createdAt = 0, trashed = tr,
      typeName = ''webforms.WebForm'', openContents = (), locations = [],
      account = [], content = Some t\<rparr>"

definition test_store ::
  "(unit, string) Item list \<Rightarrow> (unit, string, string, test_text) Store" where
  "test_store items =
     \<lparr>keyStore = [(''key/k1'', ''k1''), (''hint'', ''a hint'')],
      itemStore =
        [(''index'',
          Str (Ciphertext ''k1''
                 (IndexJson (map (\<lambda>item. (uuid item, overviewFromItem item)) items))))],
      keyAgent = [(''k1'', ''material'')],
      onItemUpdated = [],
      onUnlock = 0\<rparr>"

definition test_vault :: "(unit, string, string, test_text) Store" where
  "test_vault = test_store [test_item ''a'' ''Bank'' False, test_item ''b'' ''Old'' True]"

definition empty_vault :: "(unit, string, string, test_text) Store" where
  "empty_vault =
     \<lparr>keyStore = [(''hint'', ''a hint'')], itemStore = [], keyAgent = [],
      onItemUpdated = [], onUnlock = 0\<rparr>"




section \<open>Properties\<close>

subsection \<open>Promise chains and the overview projection\<close>

lemma Q_then_simps [simp]: "Q_then (Inl e) f = Inl e" "Q_then (Inr x) f = f x"
  by (simp_all add: Q_then_def)

lemma Q_then_Inr_iff: "Q_then p f = Inr y \<longleftrightarrow> (\<exists>x. p = Inr x \<and> f x = Inr y)"
  by (cases p) simp_all

lemma isTombstone_itemFromOverview [simp]:
  "isTombstone (itemFromOverview u ov) = ov_trashed ov"
  by (simp add: isTombstone_def itemFromOverview_def)

lemma uuid_itemFromOverview [simp]: "uuid (itemFromOverview u ov) = u"
  by (simp add: itemFromOverview_def)

lemma overviewFromItem_itemFromOverview [simp]:
  "overviewFromItem (itemFromOverview u ov) = ov"
  by (simp add: itemFromOverview_def overviewFromItem_def)

lemma overviewKey_locked: "keyAgent st = [] \<Longrightarrow> overviewKey st = Inl Locked"
  by (simp add: overviewKey_def KeyAgent_listKeys_def)

subsection \<open>Listing\<close>

lemma set_listedItem:
  "set (listedItem opts m k) =
     {itemFromOverview k ov | ov. map_of m k = Some ov \<and>
        (\<not> ov_trashed ov \<or> includeTombstones opts = Some True)}"
  by (auto simp: listedItem_def Let_def split: option.splits)

lemma map_uuid_listedItems:
  "map uuid (concat (map (listedItem opts m) ks)) =
     filter (\<lambda>k. \<exists>ov. map_of m k = Some ov \<and>
                    (\<not> ov_trashed ov \<or> includeTombstones opts = Some True)) ks"
  by (induction ks) (auto simp: listedItem_def Let_def split: option.splits)


lemma set_itemsOfIndex:
  "set (itemsOfIndex opts m) =
     {itemFromOverview u ov | u ov. map_of m u = Some ov \<and>
        (\<not> ov_trashed ov \<or> includeTombstones opts = Some True)}"
proof -
  have "map_of m u = Some ov \<Longrightarrow> u \<in> set (Object_keys m)" for u ov
    by (auto simp: Object_keys_def dest!: map_of_SomeD intro: rev_image_eqI)
  then show ?thesis
    unfolding itemsOfIndex_def by (auto simp: set_listedItem)
qed

lemma filter_uuid_listedItems:
  "distinct ks \<Longrightarrow>
   filter (\<lambda>item. uuid item = u) (concat (map (listedItem opts m) ks)) =
     (if u \<in> set ks then listedItem opts m u else [])"
proof (induction ks)
  case Nil
  then show ?case by simp
next
  case (Cons k ks)
  have own: "filter (\<lambda>item. uuid item = u) (listedItem opts m k) =
               (if k = u then listedItem opts m k else [])"
    by (auto simp: listedItem_def Let_def split: option.splits)
  from Cons show ?case by (auto simp: own)
qed

lemma filter_uuid_itemsOfIndex:
  "filter (\<lambda>item. uuid item = u) (itemsOfIndex opts m) =
     (case map_of m u of
        None \<Rightarrow> []
      | Some ov \<Rightarrow>
          if \<not> ov_trashed ov \<or> includeTombstones opts = Some True
          then [itemFromOverview u ov] else [])"
proof -
  have "u \<notin> set (Object_keys m) \<Longrightarrow> map_of m u = None"
    by (simp add: Object_keys_def map_of_eq_None_iff)
  then show ?thesis
    unfolding itemsOfIndex_def
    by (auto simp: filter_uuid_listedItems Object_keys_def listedItem_def Let_def
        split: option.splits)
qed

lemma listItems_readIndex:
  "readIndex env st = Inr m \<Longrightarrow> listItems env st opts = Inr (itemsOfIndex opts m)"
  by (simp add: listItems_def)

lemma listItems_Inr_iff:
  "listItems env st opts = Inr items \<longleftrightarrow>
     (\<exists>m. readIndex env st = Inr m \<and> items = itemsOfIndex opts m)"
  by (auto simp: listItems_def Q_then_Inr_iff)

lemma readIndex_absent:
  assumes "keyAgent st \<noteq> []" and "ObjectStore_get (itemStore st) ''index'' = None"
  shows "readIndex env st = Inr []"
  using assms
  by (simp add: readIndex_def overviewKey_def KeyAgent_listKeys_def truthy_def)

text \<open>
  C3. Without \<open>includeTombstones\<close> (false or omitted), \<open>listItems\<close> never returns an
  item whose \<open>trashed\<close> flag is set. With \<open>includeTombstones\<close>, it returns every
  entry of the index, tombstones included: one item per key of the overview map, in
  the order of the keys, each rebuilt from its overview.
\<close>

theorem listItems_tombstone_filter:
  "(includeTombstones opts \<noteq> Some True \<longrightarrow> listItems env st opts = Inr items \<longrightarrow>
      (\<forall>item \<in> set items. \<not> trashed item)) \<and>
   (readIndex env st = Inr overviewMap \<longrightarrow>
      (\<exists>allItems. listItems env st \<lparr>includeTombstones = Some True\<rparr> = Inr allItems \<and>
         map uuid allItems = Object_keys overviewMap \<and>
         (\<forall>u overview. map_of overviewMap u = Some overview \<longrightarrow>
            itemFromOverview u overview \<in> set allItems)))"
proof (intro conjI impI)
  assume "includeTombstones opts \<noteq> Some True" and "listItems env st opts = Inr items"
  then obtain m where "items = itemsOfIndex opts m"
    by (auto simp: listItems_Inr_iff)
  with \<open>includeTombstones opts \<noteq> Some True\<close> show "\<forall>item \<in> set items. \<not> trashed item"
    by (auto simp: set_itemsOfIndex itemFromOverview_def)
next
  let ?all = "\<lparr>includeTombstones = Some True\<rparr>"
  assume r: "readIndex env st = Inr overviewMap"
  have "\<exists>ov. map_of overviewMap k = Some ov" if "k \<in> set (Object_keys overviewMap)" for k
    using that by (cases "map_of overviewMap k") (auto simp: Object_keys_def map_of_eq_None_iff)
  then have "map uuid (itemsOfIndex ?all overviewMap :: ('a, 'b) Item list)
               = Object_keys overviewMap"
    by (simp add: itemsOfIndex_def map_uuid_listedItems)
  moreover have "\<forall>u overview. map_of overviewMap u = Some overview \<longrightarrow>
      itemFromOverview u overview \<in> set (itemsOfIndex ?all overviewMap :: ('a, 'b) Item list)"
    by (auto simp: set_itemsOfIndex)
  ultimately show "\<exists>allItems. listItems env st ?all = Inr allItems \<and>
         map uuid allItems = Object_keys overviewMap \<and>
         (\<forall>u overview. map_of overviewMap u = Some overview \<longrightarrow>
            itemFromOverview u overview \<in> set allItems)"
    using listItems_readIndex [OF r, of ?all] by simp
qed

theorem listItems_tombstone_filter_witness:
  "includeTombstones \<lparr>includeTombstones = None\<rparr> \<noteq> Some True \<and>
   listItems (test_env []) test_vault \<lparr>includeTombstones = None\<rparr> =
     Inr [itemFromOverview ''a'' (overviewFromItem (test_item ''a'' ''Bank'' False))] \<and>
   \<not> trashed (itemFromOverview ''a'' (overviewFromItem (test_item ''a'' ''Bank'' False))
                :: (unit, string) Item) \<and>
   readIndex (test_env []) test_vault =
     Inr [(''a'', overviewFromItem (test_item ''a'' ''Bank'' False)),
          (''b'', overviewFromItem (test_item ''b'' ''Old'' True))] \<and>
   (\<exists>allItems.
      listItems (test_env []) test_vault \<lparr>includeTombstones = Some True\<rparr> = Inr allItems \<and>
      map uuid allItems = [''a'', ''b''])"
proof -
  let ?m = "[(''a'', overviewFromItem (test_item ''a'' ''Bank'' False)),
             (''b'', overviewFromItem (test_item ''b'' ''Old'' True))]"
  let ?items = "[itemFromOverview ''a'' (overviewFromItem (test_item ''a'' ''Bank'' False))
                   :: (unit, string) Item]"
  have r: "readIndex (test_env []) test_vault = Inr ?m"
    by code_simp
  have l: "listItems (test_env []) test_vault \<lparr>includeTombstones = None\<rparr> = Inr ?items"
    by code_simp
  have k: "Object_keys ?m = [''a'', ''b'']"
    by code_simp
  show ?thesis
    using listItems_tombstone_filter
      [of "\<lparr>includeTombstones = None\<rparr>" "test_env []" test_vault ?items ?m] r l k
    by auto
qed

text \<open>
  C10. \<open>loadItem\<close> searches the view of \<open>listItems\<close> that leaves tombstones out. So for
  a uuid whose index entry is a tombstone it rejects with \<open>No such item\<close>, as it does
  for a uuid that has no entry, although the tombstone is in the index; it
  resolves, with the item rebuilt from the entry, exactly when the uuid has an
  entry that is not a tombstone.
\<close>

theorem loadItem_skips_tombstones:
  assumes "readIndex env st = Inr overviewMap"
  shows "loadItem env st u =
     (case map_of overviewMap u of
        None \<Rightarrow> Inl (NoSuchItem u)
      | Some overview \<Rightarrow>
          if isTombstone (itemFromOverview u overview :: ('o, 'c) Item)
          then Inl (NoSuchItem u)
          else Inr (itemFromOverview u overview))"
  using assms
  by (simp add: loadItem_def listItems_readIndex filter_uuid_itemsOfIndex Let_def
      split: option.splits)

theorem loadItem_skips_tombstones_witness:
  "readIndex (test_env []) test_vault =
     Inr [(''a'', overviewFromItem (test_item ''a'' ''Bank'' False)),
          (''b'', overviewFromItem (test_item ''b'' ''Old'' True))] \<and>
   loadItem (test_env []) test_vault ''b'' = Inl (NoSuchItem ''b'') \<and>
   (\<exists>items. listItems (test_env []) test_vault \<lparr>includeTombstones = Some True\<rparr> = Inr items \<and>
      ''b'' \<in> uuid ` set items)"
proof -
  let ?m = "[(''a'', overviewFromItem (test_item ''a'' ''Bank'' False)),
             (''b'', overviewFromItem (test_item ''b'' ''Old'' True))]"
  have r: "readIndex (test_env []) test_vault = Inr ?m"
    by code_simp
  have t: "ov_trashed (overviewFromItem (test_item ''b'' ''Old'' True))"
    by code_simp
  have "loadItem (test_env []) test_vault ''b'' = Inl (NoSuchItem ''b'')"
    using loadItem_skips_tombstones [OF r, of "''b''"] t by simp
  moreover have "uuid ` set (itemsOfIndex \<lparr>includeTombstones = Some True\<rparr> ?m
                   :: (unit, string) Item list) = {''a'', ''b''}"
    by code_simp
  ultimately show ?thesis
    using r by (auto simp: listItems_readIndex)
qed

text \<open>
  C7. With no entry \<open>index\<close> in the database, \<open>listItems\<close> resolves to the empty list
  for every option, provided the Key Agent lists a key: the overview key is
  fetched before the index is, and a locked vault rejects with \<open>Locked\<close> whether
  or not there is an index.
\<close>

theorem listItems_absent_index:
  assumes "keyAgent st \<noteq> []" and "ObjectStore_get (itemStore st) ''index'' = None"
  shows "listItems env st opts = Inr []"
  using readIndex_absent [OF assms]
  by (simp add: listItems_def itemsOfIndex_def Object_keys_def)

theorem listItems_absent_index_witness:
  "keyAgent (empty_vault\<lparr>keyAgent := [(''k1'', ''material'')]\<rparr>) \<noteq> [] \<and>
   ObjectStore_get (itemStore (empty_vault\<lparr>keyAgent := [(''k1'', ''material'')]\<rparr>)) ''index''
     = None \<and>
   listItems (test_env []) (empty_vault\<lparr>keyAgent := [(''k1'', ''material'')]\<rparr>)
     \<lparr>includeTombstones = Some True\<rparr> = Inr []"
proof -
  let ?st = "empty_vault\<lparr>keyAgent := [(''k1'', ''material'')]\<rparr>"
  have a: "keyAgent ?st \<noteq> []"
    by simp
  have b: "ObjectStore_get (itemStore ?st) ''index'' = None"
    by (simp add: ObjectStore_get_def empty_vault_def)
  show ?thesis
    using a b listItems_absent_index [OF a b, of "test_env []" "\<lparr>includeTombstones = Some True\<rparr>"]
    by simp
qed

text \<open>
  A locked vault with no index: \<open>listItems\<close> rejects with \<open>Locked\<close>.
\<close>

theorem listItems_absent_index_locked_counterexample:
  "ObjectStore_get (itemStore empty_vault) ''index'' = None \<and>
   listItems (test_env []) empty_vault \<lparr>includeTombstones = None\<rparr> = Inl Locked \<and>
   listItems (test_env []) empty_vault \<lparr>includeTombstones = Some True\<rparr> = Inl Locked"
  by (simp add: listItems_def readIndex_def overviewKey_locked ObjectStore_get_def
      empty_vault_def)

subsection \<open>Writes, locking and unlocking\<close>

lemma ObjectStore_get_update:
  "ObjectStore_get (AList.update k v s) k' = (if k' = k then Some v else ObjectStore_get s k')"
  by (simp add: ObjectStore_get_def update_conv')

lemma itemStore_set_cases:
  "itemStore_set env st k v = (r, st') \<Longrightarrow>
     (\<exists>e. itemStore_set_error env k = Some e \<and> r = Inl e \<and> st' = st) \<or>
     (itemStore_set_error env k = None \<and> r = Inr () \<and>
        st' = st\<lparr>itemStore := AList.update k v (itemStore st)\<rparr>)"
  by (auto simp: itemStore_set_def split: option.splits)

lemma updateIndex_success:
  assumes "updateIndex env st updatedItems = (Inr (), st')"
  shows "\<exists>items key encrypted.
      listItems env st \<lparr>includeTombstones = Some True\<rparr> = Inr items \<and>
      overviewKey st = Inr key \<and>
      keyAgent_encrypt env (keyAgent st) key
        (JSON_stringify_index env (mergedOverviewMap items updatedItems)) = Inr encrypted \<and>
      itemStore_set_error env ''index'' = None \<and>
      st' = st\<lparr>itemStore := AList.update ''index'' (Str encrypted) (itemStore st)\<rparr>"
  using assms
  by (auto simp: updateIndex_def Let_def Q_then_Inr_iff split: sum.splits
      dest!: itemStore_set_cases)

lemma updateIndex_failure:
  "updateIndex env st updatedItems = (Inl e, st') \<Longrightarrow> st' = st"
  by (auto simp: updateIndex_def Let_def split: sum.splits dest!: itemStore_set_cases)

lemma updateIndex_locked:
  "keyAgent st = [] \<Longrightarrow> updateIndex env st updatedItems = (Inl Locked, st)"
  by (simp add: updateIndex_def listItems_def readIndex_def overviewKey_locked)

lemma listItems_locked: "keyAgent st = [] \<Longrightarrow> listItems env st opts = Inl Locked"
  by (simp add: listItems_def readIndex_def overviewKey_locked)

lemma getContent_locked: "keyAgent st = [] \<Longrightarrow> getContent env st item = Inl Locked"
  by (simp add: getContent_def keyForItem_def overviewKey_locked)

lemma prepareSave_locked:
  "keyAgent st = [] \<Longrightarrow> prepareSave env st item = (Inl Locked, updateTimestamps env item)"
  by (simp add: prepareSave_def keyForItem_def overviewKey_locked Let_def)

lemma saveItem_locked:
  "keyAgent st = [] \<Longrightarrow> saveItem env st item = (Inl Locked, updateTimestamps env item, st)"
  by (simp add: saveItem_def prepareSave_locked)

lemma prepareSave_Inr:
  assumes "prepareSave env st item0 = (Inr contentData, item)"
  shows "\<exists>key c. overviewKey st = Inr key \<and>
      Item_getContent env st (updateTimestamps env item0) = Inr c \<and>
      item = updateOverviewFromContent env (updateTimestamps env item0) c \<and>
      keyAgent_encrypt env (keyAgent st) key (JSON_stringify_content env c) = Inr contentData"
  using assms
  by (auto simp: prepareSave_def keyForItem_def Let_def split: sum.splits)

lemma saveItem_success:
  assumes "saveItem env st item0 = (Inr (), item, st')"
  shows "\<exists>contentData st1.
      prepareSave env st item0 = (Inr contentData, item) \<and>
      updateIndex env st [item] = (Inr (), st1) \<and>
      itemStore_set_error env (''content/'' @ uuid item) = None \<and>
      st' = st1\<lparr>itemStore := AList.update (''content/'' @ uuid item)
                                 (Obj \<lparr>data = contentData\<rparr>) (itemStore st1),
                onItemUpdated := onItemUpdated st1 @ [item]\<rparr>"
  using assms
  by (auto simp: saveItem_def indexUpdateQueue_push_def Q_all2_def Let_def
      split: prod.splits sum.splits dest!: itemStore_set_cases)


lemma KeyAgent_listKeys_Nil [simp]: "KeyAgent_listKeys keys = [] \<longleftrightarrow> keys = []"
  by (simp add: KeyAgent_listKeys_def)

text \<open>
  C5. When the Key Agent lists no keys, \<open>listItems\<close>, \<open>saveItem\<close>, \<open>getContent\<close> and the
  index flush \<open>updateIndex\<close> all reject with the \<open>Locked\<close> error, and none of them
  changes the store. When it lists keys, the active key is the first id listed: it
  is the overview key and the key for every item, the index that a flush stores is
  a ciphertext made under it, and so is the content that \<open>saveItem\<close> stores.
\<close>

theorem locked_operations_fail:
  "(KeyAgent_listKeys (keyAgent st) = [] \<longrightarrow>
      listItems env st opts = Inl Locked \<and>
      saveItem env st item = (Inl Locked, updateTimestamps env item, st) \<and>
      getContent env st item = Inl Locked \<and>
      updateIndex env st updatedItems = (Inl Locked, st)) \<and>
   (KeyAgent_listKeys (keyAgent st) = k # ks \<longrightarrow>
      overviewKey st = Inr k \<and> keyForItem st item = Inr k \<and>
      (updateIndex env st updatedItems = (Inr (), st') \<longrightarrow>
         (\<exists>overviewMap encrypted.
            keyAgent_encrypt env (keyAgent st) k (JSON_stringify_index env overviewMap)
              = Inr encrypted \<and>
            ObjectStore_get (itemStore st') ''index'' = Some (Str encrypted))) \<and>
      (saveItem env st item = (Inr (), item', st'') \<longrightarrow>
         (\<exists>c contentData.
            keyAgent_encrypt env (keyAgent st) k (JSON_stringify_content env c)
              = Inr contentData \<and>
            ObjectStore_get (itemStore st'') (''content/'' @ uuid item')
              = Some (Obj \<lparr>data = contentData\<rparr>))))"
proof (intro conjI impI)
  assume "KeyAgent_listKeys (keyAgent st) = []"
  then have l: "keyAgent st = []" by simp
  show "listItems env st opts = Inl Locked" by (rule listItems_locked [OF l])
  show "saveItem env st item = (Inl Locked, updateTimestamps env item, st)"
    by (rule saveItem_locked [OF l])
  show "getContent env st item = Inl Locked" by (rule getContent_locked [OF l])
  show "updateIndex env st updatedItems = (Inl Locked, st)" by (rule updateIndex_locked [OF l])
next
  assume "KeyAgent_listKeys (keyAgent st) = k # ks"
  then show "overviewKey st = Inr k"
    by (simp add: overviewKey_def)
next
  assume "KeyAgent_listKeys (keyAgent st) = k # ks"
  then show "keyForItem st item = Inr k"
    by (simp add: overviewKey_def keyForItem_def)
next
  assume k: "KeyAgent_listKeys (keyAgent st) = k # ks"
    and u: "updateIndex env st updatedItems = (Inr (), st')"
  from k have "overviewKey st = Inr k"
    by (simp add: overviewKey_def)
  with updateIndex_success [OF u]
  show "\<exists>overviewMap encrypted.
          keyAgent_encrypt env (keyAgent st) k (JSON_stringify_index env overviewMap)
            = Inr encrypted \<and>
          ObjectStore_get (itemStore st') ''index'' = Some (Str encrypted)"
    by (auto simp: ObjectStore_get_update)
next
  assume k: "KeyAgent_listKeys (keyAgent st) = k # ks"
    and s: "saveItem env st item = (Inr (), item', st'')"
  from k have key: "overviewKey st = Inr k"
    by (simp add: overviewKey_def)
  from saveItem_success [OF s] obtain contentData st1 where
    p: "prepareSave env st item = (Inr contentData, item')" and
    st'': "st'' = st1\<lparr>itemStore := AList.update (''content/'' @ uuid item')
                                 (Obj \<lparr>data = contentData\<rparr>) (itemStore st1),
                onItemUpdated := onItemUpdated st1 @ [item']\<rparr>"
    by blast
  from prepareSave_Inr [OF p] key obtain c where
    "keyAgent_encrypt env (keyAgent st) k (JSON_stringify_content env c) = Inr contentData"
    by auto
  then show "\<exists>c contentData.
            keyAgent_encrypt env (keyAgent st) k (JSON_stringify_content env c)
              = Inr contentData \<and>
            ObjectStore_get (itemStore st'') (''content/'' @ uuid item')
              = Some (Obj \<lparr>data = contentData\<rparr>)"
    using st'' by (auto simp: ObjectStore_get_update)
qed

lemma map_of_fold_update:
  "map_of (fold (\<lambda>(k, v) m. AList.update k v m) kvs m) x =
     (case map_of (rev kvs) x of Some v \<Rightarrow> Some v | None \<Rightarrow> map_of m x)"
proof (induction kvs arbitrary: m)
  case Nil
  then show ?case by simp
next
  case (Cons p kvs)
  obtain k v where p: "p = (k, v)" by (cases p)
  show ?case
    by (simp add: p Cons.IH update_conv' map_add_def split: option.splits)
qed

lemma map_of_fold_addKey:
  "map_of (fold (\<lambda>(i, key) agent. KeyAgent_addKey i key agent) decrypted agent) x =
     (case map_of (rev decrypted) x of Some v \<Rightarrow> Some v | None \<Rightarrow> map_of agent x)"
  unfolding KeyAgent_addKey_def by (rule map_of_fold_update)

lemma set_listKeys_fold_addKey:
  "set (KeyAgent_listKeys (fold (\<lambda>(i, key) agent. KeyAgent_addKey i key agent) decrypted agent))
     = set (KeyAgent_listKeys agent) \<union> fst ` set decrypted"
proof -
  have d: "set (KeyAgent_listKeys a) = dom (map_of a)" for a :: "(string \<times> string) list"
    by (simp add: KeyAgent_listKeys_def dom_map_of_conv_image_fst)
  have "fst ` set decrypted = dom (map_of (rev decrypted))"
    by (simp add: dom_map_of_conv_image_fst)
  then show ?thesis
    unfolding d by (auto simp: map_of_fold_addKey dom_def split: option.splits)
qed

text \<open>
  C4. \<open>unlock\<close> rejects with \<open>NoKeys\<close> when the key store lists no key. When there
  are keys and their decryption with the password fails, it rejects with the error
  of the key derivation and leaves the state as it was: no key is added, nothing is
  published. When the decryption succeeds, every decrypted key is added to the Key
  Agent (the keys the agent held stay, a decrypted key replaces one of the same id)
  and \<open>onUnlock\<close> is published once, on the state that holds all of them.
\<close>

theorem unlock_outcome:
  "(listKeys st = [] \<longrightarrow> unlock env st pwd = (Inl NoKeys, st)) \<and>
   (listKeys st \<noteq> [] \<longrightarrow> decryptKeys env (listKeys st) pwd = Inl e \<longrightarrow>
      unlock env st pwd = (Inl e, st)) \<and>
   (listKeys st \<noteq> [] \<longrightarrow> decryptKeys env (listKeys st) pwd = Inr decrypted \<longrightarrow>
      (\<exists>agent. unlock env st pwd =
                  (Inr (), st\<lparr>keyAgent := agent, onUnlock := Suc (onUnlock st)\<rparr>) \<and>
         set (KeyAgent_listKeys agent) =
           set (KeyAgent_listKeys (keyAgent st)) \<union> fst ` set decrypted \<and>
         (\<forall>i. map_of agent i =
                (case map_of (rev decrypted) i of
                   Some key \<Rightarrow> Some key
                 | None \<Rightarrow> map_of (keyAgent st) i))))"
proof (intro conjI impI)
  assume "listKeys st = []"
  then show "unlock env st pwd = (Inl NoKeys, st)"
    by (simp add: unlock_def)
next
  assume "listKeys st \<noteq> []" and "decryptKeys env (listKeys st) pwd = Inl e"
  then show "unlock env st pwd = (Inl e, st)"
    by (simp add: unlock_def)
next
  let ?agent = "fold (\<lambda>(i, key) agent. KeyAgent_addKey i key agent) decrypted (keyAgent st)"
  assume "listKeys st \<noteq> []" and "decryptKeys env (listKeys st) pwd = Inr decrypted"
  then have "unlock env st pwd =
      (Inr (), st\<lparr>keyAgent := ?agent, onUnlock := Suc (onUnlock st)\<rparr>)"
    by (simp add: unlock_def)
  then show "\<exists>agent. unlock env st pwd =
                  (Inr (), st\<lparr>keyAgent := agent, onUnlock := Suc (onUnlock st)\<rparr>) \<and>
         set (KeyAgent_listKeys agent) =
           set (KeyAgent_listKeys (keyAgent st)) \<union> fst ` set decrypted \<and>
         (\<forall>i. map_of agent i =
                (case map_of (rev decrypted) i of
                   Some key \<Rightarrow> Some key
                 | None \<Rightarrow> map_of (keyAgent st) i))"
    using set_listKeys_fold_addKey [of decrypted "keyAgent st"]
      map_of_fold_addKey [of decrypted "keyAgent st"]
    by blast
qed


theorem locked_operations_fail_witness:
  "KeyAgent_listKeys (keyAgent empty_vault) = [] \<and>
   listItems (test_env []) empty_vault \<lparr>includeTombstones = Some True\<rparr> = Inl Locked \<and>
   fst (saveItem (test_env []) empty_vault (test_item ''c'' ''New'' False)) = Inl Locked \<and>
   getContent (test_env []) empty_vault (test_item ''c'' ''New'' False) = Inl Locked \<and>
   fst (updateIndex (test_env []) empty_vault [test_item ''c'' ''New'' False]) = Inl Locked \<and>
   KeyAgent_listKeys (keyAgent test_vault) = [''k1''] \<and>
   overviewKey test_vault = Inr ''k1'' \<and>
   fst (updateIndex (test_env []) test_vault [test_item ''c'' ''New'' False]) = Inr () \<and>
   (\<exists>overviewMap.
      ObjectStore_get
        (itemStore (snd (updateIndex (test_env []) test_vault [test_item ''c'' ''New'' False])))
        ''index'' = Some (Str (Ciphertext ''k1'' (IndexJson overviewMap)))) \<and>
   fst (saveItem (test_env []) test_vault (test_item ''c'' ''New'' False)) = Inr () \<and>
   ObjectStore_get
     (itemStore (snd (snd (saveItem (test_env []) test_vault (test_item ''c'' ''New'' False)))))
     ''content/c'' = Some (Obj \<lparr>data = Ciphertext ''k1'' (ContentJson ''New'')\<rparr>)"
proof -
  let ?env = "test_env []"
  let ?item = "test_item ''c'' ''New'' False"
  have locked: "KeyAgent_listKeys (keyAgent empty_vault) = []"
    by code_simp
  have keys: "KeyAgent_listKeys (keyAgent test_vault) = ''k1'' # []"
    by code_simp
  have u: "updateIndex ?env test_vault [?item] = (Inr (), snd (updateIndex ?env test_vault [?item]))"
    by code_simp
  have s: "saveItem ?env test_vault ?item =
             (Inr (), fst (snd (saveItem ?env test_vault ?item)),
              snd (snd (saveItem ?env test_vault ?item)))"
    by code_simp
  have c: "ObjectStore_get (itemStore (snd (snd (saveItem ?env test_vault ?item))))
             ''content/c'' = Some (Obj \<lparr>data = Ciphertext ''k1'' (ContentJson ''New'')\<rparr>)"
    by code_simp
  have e: "keyAgent_encrypt ?env agent k t = Inr x \<Longrightarrow> x = Ciphertext k t" for agent k t x
    by (auto simp: test_env_def split: option.splits)
  have j: "JSON_stringify_index ?env m = IndexJson m" for m
    by (simp add: test_env_def)
  from locked_operations_fail
    [where st = empty_vault and env = ?env and opts = "\<lparr>includeTombstones = Some True\<rparr>"
       and item = ?item and updatedItems = "[?item]"] locked
  have 1: "listItems ?env empty_vault \<lparr>includeTombstones = Some True\<rparr> = Inl Locked \<and>
      fst (saveItem ?env empty_vault ?item) = Inl Locked \<and>
      getContent ?env empty_vault ?item = Inl Locked \<and>
      fst (updateIndex ?env empty_vault [?item]) = Inl Locked"
    by simp
  from locked_operations_fail
    [where st = test_vault and env = ?env and k = "''k1''" and ks = "[]" and item = ?item
       and updatedItems = "[?item]" and st' = "snd (updateIndex ?env test_vault [?item])"]
    keys u
  have 2: "overviewKey test_vault = Inr ''k1'' \<and>
      (\<exists>overviewMap. ObjectStore_get
        (itemStore (snd (updateIndex ?env test_vault [?item])))
        ''index'' = Some (Str (Ciphertext ''k1'' (IndexJson overviewMap))))"
    by (auto dest!: e simp: j)
  from 1 2 locked keys u s c show ?thesis
    by (metis fst_conv)
qed

theorem unlock_outcome_witness:
  "listKeys empty_vault = [] \<and>
   unlock (test_env []) empty_vault ''hunter2'' = (Inl NoKeys, empty_vault) \<and>
   listKeys (test_vault\<lparr>keyAgent := []\<rparr>) = [''k1''] \<and>
   decryptKeys (test_env []) [''k1''] ''wrong'' = Inl (CryptoError ''InvalidPassword'') \<and>
   unlock (test_env []) (test_vault\<lparr>keyAgent := []\<rparr>) ''wrong'' =
     (Inl (CryptoError ''InvalidPassword''), test_vault\<lparr>keyAgent := []\<rparr>) \<and>
   decryptKeys (test_env []) [''k1''] ''hunter2'' = Inr [(''k1'', ''material'')] \<and>
   (\<exists>agent. unlock (test_env []) (test_vault\<lparr>keyAgent := []\<rparr>) ''hunter2'' =
      (Inr (), test_vault\<lparr>keyAgent := agent, onUnlock := 1\<rparr>) \<and>
      set (KeyAgent_listKeys agent) = {''k1''})"
proof -
  let ?env = "test_env []"
  let ?st = "test_vault\<lparr>keyAgent := []\<rparr>"
  have a: "listKeys empty_vault = []"
    by code_simp
  have b: "listKeys ?st = [''k1'']"
    by code_simp
  have c: "decryptKeys ?env [''k1''] ''wrong'' = Inl (CryptoError ''InvalidPassword'')"
    by code_simp
  have d: "decryptKeys ?env [''k1''] ''hunter2'' = Inr [(''k1'', ''material'')]"
    by code_simp
  have z: "onUnlock ?st = 0"
    by code_simp
  from unlock_outcome [where st = empty_vault and env = ?env and pwd = "''hunter2''"] a
  have 1: "unlock ?env empty_vault ''hunter2'' = (Inl NoKeys, empty_vault)"
    by simp
  from unlock_outcome [where st = ?st and env = ?env and pwd = "''wrong''"
      and e = "CryptoError ''InvalidPassword''"] b c
  have 2: "unlock ?env ?st ''wrong'' = (Inl (CryptoError ''InvalidPassword''), ?st)"
    by simp
  from unlock_outcome [where st = ?st and env = ?env and pwd = "''hunter2''"
      and decrypted = "[(''k1'', ''material'')]"] b d z
  have 3: "\<exists>agent. unlock ?env ?st ''hunter2'' =
      (Inr (), test_vault\<lparr>keyAgent := agent, onUnlock := 1\<rparr>) \<and>
      set (KeyAgent_listKeys agent) = {''k1''}"
    by (auto simp: KeyAgent_listKeys_def)
  from a b c d 1 2 3 show ?thesis
    by simp
qed

text \<open>
  C6. \<open>getContent\<close> has no case for an entry that is absent: it reads the property
  \<open>data\<close> of what \<open>get\<close> resolved to. With the vault unlocked and no entry under
  \<open>content/c\<close>, that read throws a \<open>TypeError\<close>, so the promise is rejected with it
  and not with a \<open>No such item\<close> error as \<open>loadItem\<close> raises for a missing item.
\<close>

theorem getContent_absent_entry:
  "ObjectStore_get (itemStore test_vault) (''content/'' @ uuid (test_item ''c'' ''New'' False))
     = None \<and>
   getContent (test_env []) test_vault (test_item ''c'' ''New'' False) =
     Inl (TypeError ''Cannot read property data of undefined'') \<and>
   loadItem (test_env []) test_vault ''c'' = Inl (NoSuchItem ''c'')"
  by code_simp

subsection \<open>The index update\<close>

lemma spec_lastWriter_Nil [simp]: "spec_lastWriter [] u = None"
  by (simp add: spec_lastWriter_def)















subsection \<open>Saving an item\<close>



lemma saveItem_prepared:
  assumes "prepareSave env st item0 = (Inr contentData, item)"
    and "updateIndex env st [item] = (p, st1)"
    and "itemStore_set env st1 (''content/'' @ uuid item) (Obj \<lparr>data = contentData\<rparr>) = (q, st2)"
  shows "saveItem env st item0 =
           (case Q_all2 p q of
              Inl e \<Rightarrow> (Inl e, item, st2)
            | Inr u \<Rightarrow> (Inr (), item, st2\<lparr>onItemUpdated := onItemUpdated st2 @ [item]\<rparr>))"
  using assms by (simp add: saveItem_def indexUpdateQueue_push_def)

lemma updateIndex_cases:
  assumes "updateIndex env st updatedItems = (p, st1)"
  shows "(\<exists>e. p = Inl e \<and> st1 = st) \<or>
         (p = Inr () \<and> itemStore_set_error env ''index'' = None \<and>
            (\<exists>encrypted. st1 = st\<lparr>itemStore := AList.update ''index'' (Str encrypted) (itemStore st)\<rparr>))"
proof (cases p)
  case (Inl e)
  with assms updateIndex_failure [of env st updatedItems e st1] show ?thesis by simp
next
  case (Inr u)
  with assms updateIndex_success [of env st updatedItems st1] show ?thesis by auto
qed











subsection \<open>Concurrent saves\<close>

lemma run_Nil [simp]: "run env sys [] = sys"
  by (simp add: run_def)

lemma run_snoc [simp]: "run env sys (actions @ [a]) = step env (run env sys actions) a"
  by (simp add: run_def)

lemma startFlush_fields [simp]:
  "store (startFlush sys) = store sys"
  "pendingWrites (startFlush sys) = pendingWrites sys"
  "pushed (startFlush sys) = pushed sys"
  "flushed (startFlush sys) = flushed sys"
  by (simp_all add: startFlush_def split: option.splits)

lemma push_fields [simp]:
  "store (BatchedUpdateQueue_push sys item) = store sys"
  "pendingWrites (BatchedUpdateQueue_push sys item) = pendingWrites sys"
  "pushed (BatchedUpdateQueue_push sys item) = pushed sys @ [item]"
  "flushed (BatchedUpdateQueue_push sys item) = flushed sys"
  by (simp_all add: BatchedUpdateQueue_push_def)










text \<open>
  The model of one \<open>saveItem\<close> call is the run of that call alone, with the flush
  completing before the content write: both end in the same store (the run does not
  record events).
\<close>

lemma saveItem_as_run:
  "store (run env (atRest st) [Save item0, FlushDone, WriteDone 0]) =
     (snd (snd (saveItem env st item0)))\<lparr>onItemUpdated := onItemUpdated st\<rparr>"
proof -
  obtain pr item where prep: "prepareSave env st item0 = (pr, item)"
    by (cases "prepareSave env st item0")
  show ?thesis
  proof (cases pr)
    case (Inl e)
    with prep show ?thesis
      by (simp add: run_def atRest_def saveItem_def)
  next
    case (Inr contentData)
    obtain p st1 where u: "updateIndex env st [item] = (p, st1)"
      by (cases "updateIndex env st [item]")
    obtain q st2 where w: "itemStore_set env st1 (''content/'' @ uuid item)
                             (Obj \<lparr>data = contentData\<rparr>) = (q, st2)"
      by (cases "itemStore_set env st1 (''content/'' @ uuid item) (Obj \<lparr>data = contentData\<rparr>)")
    from prep Inr have prep': "prepareSave env st item0 = (Inr contentData, item)"
      by simp
    from updateIndex_cases [OF u] itemStore_set_cases [OF w]
    have ev: "onItemUpdated st2 = onItemUpdated st"
      by auto
    have "store (run env (atRest st) [Save item0, FlushDone, WriteDone 0]) = st2"
      using prep' u w
      by (simp add: run_def atRest_def BatchedUpdateQueue_push_def startFlush_def)
    moreover have "(snd (snd (saveItem env st item0)))\<lparr>onItemUpdated := onItemUpdated st\<rparr> = st2"
      using ev by (simp add: saveItem_prepared [OF prep' u w] split: sum.splits)
    ultimately show ?thesis
      by simp
  qed
qed





















end
